theory Spec2Isabelle
  imports
    Main
    "HOL-Library.AList"
    "HOL-Library.Char_ord"
    "HOL-Library.List_Lexorder"
    "HOL-Library.Product_Lexorder"
begin

section \<open>Time\<close>

text \<open>
  A \<^verbatim>\<open>datetime\<close> is the number of microseconds since the epoch (the resolution of
  Python's datetime), a \<^verbatim>\<open>timedelta\<close> a number of microseconds. All datetimes of the
  program are timezone-aware UTC values, so comparison and subtraction are those of the
  integers.
\<close>

type_synonym datetime = int
type_synonym timedelta = int

definition timedelta_minutes :: "int \<Rightarrow> timedelta" where
  "timedelta_minutes n = n * 60000000"

definition timedelta_hours :: "int \<Rightarrow> timedelta" where
  "timedelta_hours n = n * 3600000000"

definition START_DIFF :: timedelta where
  "START_DIFF = timedelta_minutes 15"

definition END_DIFF :: timedelta where
  "END_DIFF = timedelta_hours 1"

section \<open>Data model (bot.py)\<close>

text \<open>
  \<^verbatim>\<open>MessageData\<close> is a dataclass with \<^verbatim>\<open>order=True\<close>: two messages compare as the tuples
  of their fields, in the order of declaration. The field \<^verbatim>\<open>id\<close> is \<open>id_msg\<close> here.
\<close>

record MessageData =
  timestamp :: datetime
  id_msg :: int
  author :: int
  content :: string
  attachments :: "string list"

definition msg_key :: "MessageData \<Rightarrow> datetime \<times> int \<times> int \<times> string \<times> string list" where
  "msg_key m = (timestamp m, id_msg m, author m, content m, attachments m)"

text \<open>\<^verbatim>\<open>sorted(messages)\<close> and \<^verbatim>\<open>messages.sort()\<close>: a stable sort by the tuple order.\<close>

definition sorted_messages :: "MessageData list \<Rightarrow> MessageData list" where
  "sorted_messages ms = sort_key msg_key ms"

record ChannelStatus =
  checked_at :: datetime
  active :: bool

text \<open>
  A member of a Python set or a key of a Python dict is an int or a str here, and an int
  never equals a str: \<^verbatim>\<open>7 in {"7"}\<close> is False.
\<close>

datatype py_key = IntKey int | StrKey string

record BotData =
  last_validated :: "string \<rightharpoonup> ChannelStatus"
  tracked_channels :: "py_key set option"

record Guild =
  guild_id :: int
  guild_name :: string

record Channel =
  channel_id :: int
  channel_name :: string
  channel_guild :: Guild

text \<open>A message as the Feed delivers it to \<^verbatim>\<open>on_message\<close>.\<close>

record Message =
  message_id :: int
  message_author :: int
  message_content :: string
  created_at :: datetime
  attachment_urls :: "string list"
  message_channel :: Channel
  message_guild :: "Guild option"

datatype py_error = KeyError | AttributeError | IndexError | OSError | APIError

type_synonym 'a result = "py_error + 'a"

subsection \<open>\<^verbatim>\<open>str\<close> of an int\<close>

definition digit_char :: "nat \<Rightarrow> char" where
  "digit_char d = ''0123456789'' ! d"

function str_nat :: "nat \<Rightarrow> string" where
  "str_nat n = (if n < 10 then [digit_char n] else str_nat (n div 10) @ [digit_char (n mod 10)])"
  by pat_completeness auto
termination
  by (relation "measure (\<lambda>n. n)") auto

declare str_nat.simps [simp del]

definition str :: "int \<Rightarrow> string" where
  "str i = (if i < 0 then CHR ''-'' # str_nat (nat (- i)) else str_nat (nat i))"

subsection \<open>The message collection\<close>

text \<open>
  \<^verbatim>\<open>message_collection\<close> is a \<^verbatim>\<open>defaultdict(lambda: defaultdict(list))\<close>: guild id, then
  channel id, then the channel's Buffer. Python dicts keep the order in which keys were
  first inserted and the sweep iterates in that order, so both levels are association
  lists; \<open>AList.update\<close> replaces the value of a key in place and appends a new key at
  the end, as a dict does. Reading a missing key of a defaultdict inserts the default.
\<close>

type_synonym channel_buffers = "(int \<times> MessageData list) list"
type_synonym collection = "(py_key \<times> channel_buffers) list"

definition guild_buffers :: "py_key \<Rightarrow> collection \<Rightarrow> channel_buffers" where
  "guild_buffers g mc = (case map_of mc g of None \<Rightarrow> [] | Some chs \<Rightarrow> chs)"

definition buffer_of :: "py_key \<Rightarrow> int \<Rightarrow> collection \<Rightarrow> MessageData list" where
  "buffer_of g c mc = (case map_of (guild_buffers g mc) c of None \<Rightarrow> [] | Some b \<Rightarrow> b)"

definition has_buffer :: "py_key \<Rightarrow> int \<Rightarrow> collection \<Rightarrow> bool" where
  "has_buffer g c mc = (case map_of (guild_buffers g mc) c of None \<Rightarrow> False | Some b \<Rightarrow> True)"

text \<open>\<^verbatim>\<open>message_collection[g][c] = b\<close>\<close>

definition set_buffer :: "py_key \<Rightarrow> int \<Rightarrow> MessageData list \<Rightarrow> collection \<Rightarrow> collection" where
  "set_buffer g c b mc = AList.update g (AList.update c b (guild_buffers g mc)) mc"

text \<open>\<^verbatim>\<open>message_collection[g][c].extend(ms)\<close>, and \<^verbatim>\<open>.append(m)\<close> with \<open>ms = [m]\<close>\<close>

definition extend_buffer :: "py_key \<Rightarrow> int \<Rightarrow> MessageData list \<Rightarrow> collection \<Rightarrow> collection" where
  "extend_buffer g c ms mc = set_buffer g c (buffer_of g c mc @ ms) mc"

text \<open>
  \<^verbatim>\<open>del message_collection[g][c]\<close>: the read of \<^verbatim>\<open>message_collection[g]\<close> inserts an empty
  guild entry when there is none, then \<^verbatim>\<open>del\<close> raises KeyError when the channel has no
  Buffer.
\<close>

definition del_buffer :: "py_key \<Rightarrow> int \<Rightarrow> collection \<Rightarrow> unit result \<times> collection" where
  "del_buffer g c mc =
     (if has_buffer g c mc
      then (Inr (), AList.update g (AList.delete c (guild_buffers g mc)) mc)
      else (Inl KeyError, AList.update g (guild_buffers g mc) mc))"

section \<open>The Summarizer (llm.py)\<close>

text \<open>
  What the program reaches outside itself for is a parameter of the model:
  \<^item> \<open>history ch t\<close>: the messages \<^verbatim>\<open>ch.history(limit=None, after=t)\<close> yields, each as the
    \<^verbatim>\<open>MessageData\<close> built from it, up to the end of the history or to the exception that
    ends the iteration;
  \<^item> \<open>get_channel\<close>: \<^verbatim>\<open>bot.get_channel\<close>, \<open>None\<close> for an id the client does not know;
  \<^item> \<open>bot_user\<close>: the id of \<^verbatim>\<open>bot.user\<close>;
  \<^item> \<open>create_completion cn sn ms\<close>: \<^verbatim>\<open>client.chat.completions.create\<close> on the request built
    for channel \<open>cn\<close>, server \<open>sn\<close> and the sorted messages \<open>ms\<close>: an exception, or the
    list of \<^verbatim>\<open>choices[i].message.content\<close> (a choice may have no content);
  \<^item> \<open>json_line s t\<close>: \<^verbatim>\<open>json.dumps({"summary": s.strip(), "timestamp": t.isoformat()}) + "\n"\<close>;
  \<^item> \<open>open_append p l\<close>: what \<^verbatim>\<open>with open(p, "a") as f: f.write(l)\<close> meets: \<^verbatim>\<open>open\<close>
    raises and the files are as before; or the file is open (created when it was not
    there) and the write, or the flush when the file is closed, raises after the first
    \<open>n\<close> characters of \<open>l\<close> have reached the file; or all of \<open>l\<close> is appended.
\<close>

datatype write_outcome = OpenFails | WriteFails nat | Written

record externals =
  history :: "Channel \<Rightarrow> datetime \<Rightarrow> MessageData list"
  get_channel :: "int \<Rightarrow> Channel option"
  bot_user :: int
  create_completion :: "string \<Rightarrow> string \<Rightarrow> MessageData list \<Rightarrow> (string option list) result"
  json_line :: "string \<Rightarrow> datetime \<Rightarrow> string"
  open_append :: "string \<Rightarrow> string \<Rightarrow> write_outcome"

text \<open>
  The files under \<^verbatim>\<open>summaries/\<close>: path to the pieces appended to the file, in the order
  of the appends. A piece is a line when the append ran to its end, and the part of the
  line that reached the file when it did not.
\<close>

type_synonym summary_files = "string \<rightharpoonup> string list"

definition summary_path :: "string \<Rightarrow> string \<Rightarrow> string" where
  "summary_path sname cname = ''summaries/'' @ sname @ ''_'' @ cname @ ''.jsonl''"

definition append_line :: "string \<Rightarrow> string \<Rightarrow> summary_files \<Rightarrow> summary_files" where
  "append_line p l fs = fs(p \<mapsto> (case fs p of None \<Rightarrow> [] | Some ls \<Rightarrow> ls) @ [l])"

text \<open>
  The body of the coroutine \<^verbatim>\<open>summarize_messages\<close>: what running it to its end does.
  Only the backend call stands inside \<^verbatim>\<open>try\<close>; \<^verbatim>\<open>choices[0]\<close>, \<^verbatim>\<open>.content.strip()\<close> and
  the append to the file stand after it. An append that raises may have written part of
  the line.
\<close>

definition summarize_messages ::
  "externals \<Rightarrow> string \<Rightarrow> string \<Rightarrow> MessageData list \<Rightarrow> summary_files \<Rightarrow> unit result \<times> summary_files" where
  "summarize_messages ext cname sname messages fs =
     (if messages = [] then (Inr (), fs)
      else
        let messages = sorted_messages messages in
        case create_completion ext cname sname messages of
          Inl e \<Rightarrow> (Inr (), fs)
        | Inr choices \<Rightarrow>
            (case choices of
               [] \<Rightarrow> (Inl IndexError, fs)
             | c # cs \<Rightarrow>
                 (case c of
                    None \<Rightarrow> (Inl AttributeError, fs)
                  | Some summary \<Rightarrow>
                      let last_timestamp = timestamp (last messages);
                          p = summary_path sname cname;
                          l = json_line ext summary last_timestamp
                      in case open_append ext p l of
                           OpenFails \<Rightarrow> (Inl OSError, fs)
                         | WriteFails n \<Rightarrow> (Inl OSError, append_line p (take n l) fs)
                         | Written \<Rightarrow> (Inr (), append_line p l fs))))"

section \<open>The Windowing Engine (\<^verbatim>\<open>_fetch_message_history\<close>)\<close>

record bot_state =
  yaml_data :: BotData
  message_collection :: collection
  summaries :: summary_files

record scan_state =
  conversation_chunks :: "MessageData list list"
  current_chunk :: "MessageData list"
  in_conversation :: bool
  validate_stamp :: "datetime option"

definition scan_init :: scan_state where
  "scan_init = \<lparr>conversation_chunks = [], current_chunk = [], in_conversation = False,
                 validate_stamp = None\<rparr>"

text \<open>\<^verbatim>\<open>xs[-5]\<close> and \<^verbatim>\<open>xs[-5:]\<close> of a list of at least five elements.\<close>

definition fifth_from_end :: "'a list \<Rightarrow> 'a" where
  "fifth_from_end xs = xs ! (length xs - 5)"

definition last_five :: "'a list \<Rightarrow> 'a list" where
  "last_five xs = drop (length xs - 5) xs"

text \<open>One turn of the loop \<^verbatim>\<open>for msg in messages\<close>.\<close>

definition scan_step :: "scan_state \<Rightarrow> MessageData \<Rightarrow> scan_state" where
  "scan_step s msg =
     (let chunk = current_chunk s @ [msg] in
      if length chunk < 5 then s\<lparr>current_chunk := chunk\<rparr>
      else if \<not> in_conversation s then
        (if timestamp (fifth_from_end chunk) < timestamp msg - START_DIFF
         then s\<lparr>current_chunk := last_five chunk, in_conversation := True,
                validate_stamp := Some (timestamp (hd (last_five chunk)))\<rparr>
         else s\<lparr>current_chunk := chunk\<rparr>)
      else
        (if timestamp (fifth_from_end chunk) > timestamp msg - END_DIFF
         then s\<lparr>conversation_chunks := conversation_chunks s @ [chunk], current_chunk := [],
                in_conversation := False, validate_stamp := Some (timestamp msg)\<rparr>
         else s\<lparr>current_chunk := chunk\<rparr>))"

definition scan :: "MessageData list \<Rightarrow> scan_state" where
  "scan messages = foldl scan_step scan_init messages"

text \<open>
  An invariant of the loop: the candidate timestamp, when there is one, is the timestamp
  of a message of \<open>M\<close>.
\<close>

definition stamp_from :: "MessageData set \<Rightarrow> scan_state \<Rightarrow> bool" where
  "stamp_from M s \<longleftrightarrow> (case validate_stamp s of None \<Rightarrow> True | Some v \<Rightarrow> v \<in> timestamp ` M)"

text \<open>
  \<^verbatim>\<open>for chunk in conversation_chunks: await summarizer.summarize_messages(...)\<close>: each
  coroutine is awaited, so its body runs; an exception of one ends the loop.
\<close>

fun summarize_chunks ::
  "externals \<Rightarrow> string \<Rightarrow> string \<Rightarrow> MessageData list list \<Rightarrow> summary_files \<Rightarrow> unit result \<times> summary_files" where
  "summarize_chunks ext cn sn [] fs = (Inr (), fs)"
| "summarize_chunks ext cn sn (chunk # chunks) fs =
     (case summarize_messages ext cn sn chunk fs of
        (Inl e, fs') \<Rightarrow> (Inl e, fs')
      | (Inr u, fs') \<Rightarrow> summarize_chunks ext cn sn chunks fs')"

definition set_status :: "string \<Rightarrow> ChannelStatus \<Rightarrow> bot_state \<Rightarrow> bot_state" where
  "set_status k s st =
     st\<lparr>yaml_data := (yaml_data st)\<lparr>last_validated := (last_validated (yaml_data st))(k \<mapsto> s)\<rparr>\<rparr>"

text \<open>
  \<open>now\<close> is the value of \<^verbatim>\<open>datetime.now(tz=timezone.utc)\<close> at the call. An exception of
  \<^verbatim>\<open>channel.history\<close> is caught and logged, and the messages read before it are kept:
  \<open>history ext channel t\<close> is that list. \<^verbatim>\<open>save_yaml\<close> writes the YAML file, catches
  every exception of its own and changes nothing in memory; it is left out.
\<close>

definition time_data :: "datetime \<Rightarrow> Channel \<Rightarrow> bot_state \<Rightarrow> ChannelStatus" where
  "time_data now channel st =
     (let default_timestamp = now - timedelta_hours 3 in
      case last_validated (yaml_data st) (str (channel_id channel)) of
        None \<Rightarrow> \<lparr>checked_at = default_timestamp, active = False\<rparr>
      | Some td \<Rightarrow> td)"

definition fetch_message_history ::
  "externals \<Rightarrow> datetime \<Rightarrow> Guild \<Rightarrow> Channel \<Rightarrow> bot_state \<Rightarrow> unit result \<times> bot_state" where
  "fetch_message_history ext now guild channel st =
     (let messages = history ext channel (checked_at (time_data now channel st));
          g = IntKey (guild_id guild);
          c = channel_id channel;
          st1 = st\<lparr>message_collection := extend_buffer g c messages (message_collection st)\<rparr>
      in if length messages \<ge> 5 then
           let sc = scan (sorted_messages messages);
               st2 = (case validate_stamp sc of
                        None \<Rightarrow> st1
                      | Some v \<Rightarrow> set_status (str c) \<lparr>checked_at = v, active = in_conversation sc\<rparr> st1);
               st3 = st2\<lparr>message_collection := set_buffer g c (current_chunk sc) (message_collection st2)\<rparr>
           in case summarize_chunks ext (channel_name channel) (guild_name guild)
                     (conversation_chunks sc) (summaries st3) of
                (r, fs) \<Rightarrow> (r, st3\<lparr>summaries := fs\<rparr>)
         else (Inr (), st1))"

section \<open>The Channel Tracker (\<^verbatim>\<open>track_channel\<close>, \<^verbatim>\<open>on_message\<close>)\<close>

definition set_tracked :: "py_key set \<Rightarrow> bot_state \<Rightarrow> bot_state" where
  "set_tracked tr st = st\<lparr>yaml_data := (yaml_data st)\<lparr>tracked_channels := Some tr\<rparr>\<rparr>"

text \<open>
  \<open>now\<close> is the clock read by \<^verbatim>\<open>track_channel\<close>, \<open>now'\<close> the one read by the
  \<^verbatim>\<open>_fetch_message_history\<close> it awaits. The membership test is on the int
  \<^verbatim>\<open>channel.id\<close>; \<^verbatim>\<open>add\<close> stores \<^verbatim>\<open>str(channel.id)\<close>; \<^verbatim>\<open>remove(channel.id)\<close> is reached
  only when the int is a member, so it does not raise.
\<close>

definition track_channel ::
  "externals \<Rightarrow> datetime \<Rightarrow> datetime \<Rightarrow> Channel \<Rightarrow> bool \<Rightarrow> bot_state \<Rightarrow> bool result \<times> bot_state" where
  "track_channel ext now now' channel track st =
     (case tracked_channels (yaml_data st) of
        None \<Rightarrow> (Inr False, st)
      | Some tracked \<Rightarrow>
          if track = (IntKey (channel_id channel) \<in> tracked) then (Inr False, st)
          else if track then
            let channel_id_str = str (channel_id channel);
                st1 = set_tracked (insert (StrKey channel_id_str) tracked) st;
                fallback_time = now - timedelta_hours 3;
                st2 = (case last_validated (yaml_data st1) channel_id_str of
                         None \<Rightarrow> set_status channel_id_str
                                   \<lparr>checked_at = fallback_time, active = False\<rparr> st1
                       | Some s \<Rightarrow>
                           if checked_at s < fallback_time
                           then set_status channel_id_str
                                  \<lparr>checked_at = fallback_time, active = False\<rparr> st1
                           else st1)
            in case fetch_message_history ext now' (channel_guild channel) channel st2 of
                 (Inl e, st3) \<Rightarrow> (Inl e, st3)
               | (Inr u, st3) \<Rightarrow> (Inr True, st3)
          else
            let st1 = set_tracked (tracked - {IntKey (channel_id channel)}) st in
            case del_buffer (IntKey (guild_id (channel_guild channel))) (channel_id channel)
                   (message_collection st1) of
              (Inl e, mc) \<Rightarrow> (Inl e, st1\<lparr>message_collection := mc\<rparr>)
            | (Inr u, mc) \<Rightarrow> (Inr True, st1\<lparr>message_collection := mc\<rparr>))"

text \<open>
  The admission test of \<^verbatim>\<open>on_message\<close>, \<^verbatim>\<open>on_ready\<close> and \<^verbatim>\<open>on_guild_join\<close>:
  \<^verbatim>\<open>tracked_channels is not None and channel.id not in tracked_channels\<close>.
\<close>

definition not_tracked :: "BotData \<Rightarrow> int \<Rightarrow> bool" where
  "not_tracked yd cid =
     (case tracked_channels yd of None \<Rightarrow> False | Some tracked \<Rightarrow> IntKey cid \<notin> tracked)"

definition message_data :: "Message \<Rightarrow> MessageData" where
  "message_data message =
     \<lparr>timestamp = created_at message, id_msg = message_id message,
      author = message_author message, content = message_content message,
      attachments = attachment_urls message\<rparr>"

definition on_message :: "externals \<Rightarrow> Message \<Rightarrow> bot_state \<Rightarrow> bot_state" where
  "on_message ext message st =
     (if message_author message = bot_user ext then st
      else if not_tracked (yaml_data st) (channel_id (message_channel message)) then st
      else
        let g = (case message_guild message of
                   Some guild \<Rightarrow> IntKey (guild_id guild)
                 | None \<Rightarrow> StrKey ''DM'');
            c = channel_id (message_channel message)
        in st\<lparr>message_collection :=
                extend_buffer g c [message_data message] (message_collection st)\<rparr>)"

section \<open>The Idle-Transition Reconciler (\<^verbatim>\<open>check_conversations\<close>)\<close>

text \<open>
  The lists \<^verbatim>\<open>active\<close> and \<^verbatim>\<open>idle\<close> are built from \<^verbatim>\<open>last_validated\<close> before the loop; the
  loop only tests membership in them.
\<close>

definition in_idle :: "(string \<rightharpoonup> ChannelStatus) \<Rightarrow> string \<Rightarrow> bool" where
  "in_idle lv k = (case lv k of None \<Rightarrow> False | Some s \<Rightarrow> \<not> active s)"

definition in_active :: "(string \<rightharpoonup> ChannelStatus) \<Rightarrow> string \<Rightarrow> bool" where
  "in_active lv k = (case lv k of None \<Rightarrow> False | Some s \<Rightarrow> active s)"

text \<open>\<^verbatim>\<open>last_validated[k].active = b\<close> and \<^verbatim>\<open>last_validated[k].checked_at = t\<close>\<close>

definition set_active :: "string \<Rightarrow> bool \<Rightarrow> bot_state \<Rightarrow> unit result \<times> bot_state" where
  "set_active k b st =
     (case last_validated (yaml_data st) k of
        None \<Rightarrow> (Inl KeyError, st)
      | Some s \<Rightarrow> (Inr (), set_status k (s\<lparr>active := b\<rparr>) st))"

definition set_checked_at :: "string \<Rightarrow> datetime \<Rightarrow> bot_state \<Rightarrow> unit result \<times> bot_state" where
  "set_checked_at k t st =
     (case last_validated (yaml_data st) k of
        None \<Rightarrow> (Inl KeyError, st)
      | Some s \<Rightarrow> (Inr (), set_status k (s\<lparr>checked_at := t\<rparr>) st))"

text \<open>
  The body of the inner loop for one channel. \<^verbatim>\<open>summarize_messages\<close> is an \<^verbatim>\<open>async def\<close>:
  the call in the sweep evaluates its arguments (\<^verbatim>\<open>get_channel(cid).name\<close> raises
  AttributeError when the client does not know the channel) and builds a coroutine
  object. The sweep neither awaits the coroutine nor hands it to the event loop, so its
  body never runs: the coroutine is bound here and not applied to the summary files.
\<close>

definition sweep_channel ::
  "externals \<Rightarrow> (string \<rightharpoonup> ChannelStatus) \<Rightarrow> datetime \<Rightarrow> datetime \<Rightarrow> py_key \<times> int \<Rightarrow> bot_state
     \<Rightarrow> unit result \<times> bot_state" where
  "sweep_channel ext lv0 time_to_active time_to_idle gc st =
     (let gid = fst gc; cid = snd gc; k = str cid;
          messages = sorted_messages (buffer_of gid cid (message_collection st))
      in case
           (if in_idle lv0 k then
              (if length messages \<ge> 5 \<and> timestamp (fifth_from_end messages) > time_to_active
               then set_active k True st
               else (Inr (), st))
            else if in_active lv0 k then
              (if length messages \<ge> 5 \<and> timestamp (fifth_from_end messages) < time_to_idle
               then
                 (case set_active k False st of
                    (Inl e, st1) \<Rightarrow> (Inl e, st1)
                  | (Inr u, st1) \<Rightarrow>
                      (case get_channel ext cid of
                         None \<Rightarrow> (Inl AttributeError, st1)
                       | Some ch \<Rightarrow>
                           let coroutine = summarize_messages ext (channel_name ch)
                                             (guild_name (channel_guild ch)) messages
                           in (Inr (), st1\<lparr>message_collection :=
                                             set_buffer gid cid [] (message_collection st1)\<rparr>)))
               else (Inr (), st))
            else (Inr (), st))
         of
           (Inl e, st') \<Rightarrow> (Inl e, st')
         | (Inr u, st') \<Rightarrow> set_checked_at k time_to_active st')"

text \<open>The pairs \<^verbatim>\<open>(gid, cid)\<close> in the order of \<^verbatim>\<open>for gid in mc: for cid in mc[gid]\<close>.\<close>

definition collection_keys :: "collection \<Rightarrow> (py_key \<times> int) list" where
  "collection_keys mc = concat (map (\<lambda>gchs. map (\<lambda>cb. (fst gchs, fst cb)) (snd gchs)) mc)"

text \<open>A loop whose body may raise: the first exception ends it.\<close>

fun for_each :: "('k \<Rightarrow> 's \<Rightarrow> unit result \<times> 's) \<Rightarrow> 'k list \<Rightarrow> 's \<Rightarrow> unit result \<times> 's" where
  "for_each body [] st = (Inr (), st)"
| "for_each body (k # ks) st =
     (case body k st of
        (Inl e, st') \<Rightarrow> (Inl e, st')
      | (Inr u, st') \<Rightarrow> for_each body ks st')"

text \<open>
  \<open>now_active\<close> and \<open>now_idle\<close> are the two clock reads of the sweep. The loop assigns to
  Buffers of existing keys only, so the keys it iterates over are those at its start.
\<close>

definition check_conversations ::
  "externals \<Rightarrow> datetime \<Rightarrow> datetime \<Rightarrow> bot_state \<Rightarrow> unit result \<times> bot_state" where
  "check_conversations ext now_active now_idle st =
     (let lv0 = last_validated (yaml_data st);
          time_to_active = now_active - START_DIFF;
          time_to_idle = now_idle - END_DIFF
      in for_each (sweep_channel ext lv0 time_to_active time_to_idle)
           (collection_keys (message_collection st)) st)"

section \<open>Scenarios\<close>

text \<open>Message number \<open>n\<close>, sent \<open>n\<close> minutes after the epoch.\<close>

definition minute_msg :: "int \<Rightarrow> MessageData" where
  "minute_msg n = \<lparr>timestamp = timedelta_minutes n, id_msg = n, author = 1, content = ''m'',
                   attachments = []\<rparr>"

definition guild1 :: Guild where
  "guild1 = \<lparr>guild_id = 1, guild_name = ''g''\<rparr>"

definition channel7 :: Channel where
  "channel7 = \<lparr>channel_id = 7, channel_name = ''c'', channel_guild = guild1\<rparr>"

text \<open>
  A Feed over the messages \<open>ms\<close> that returns those after the requested time, a backend
  that answers every request with one choice, and a writable summaries directory.
\<close>

definition feed :: "MessageData list \<Rightarrow> externals" where
  "feed ms =
     \<lparr>history = (\<lambda>ch t. filter (\<lambda>m. t < timestamp m) ms),
      get_channel = (\<lambda>i. if i = 7 then Some channel7 else None),
      bot_user = 0,
      create_completion = (\<lambda>cn sn ms. Inr [Some ''summary'']),
      json_line = (\<lambda>s t. s),
      open_append = (\<lambda>p l. Written)\<rparr>"

definition bot_state0 :: "(string \<rightharpoonup> ChannelStatus) \<Rightarrow> py_key set option \<Rightarrow> collection \<Rightarrow> bot_state" where
  "bot_state0 lv tr mc =
     \<lparr>yaml_data = \<lparr>last_validated = lv, tracked_channels = tr\<rparr>, message_collection = mc,
      summaries = Map.empty\<rparr>"

text \<open>
  Live message number \<open>n\<close> on channel \<open>c\<close> of \<open>guild1\<close>, sent at minute \<open>n\<close> by a
  user who is not the bot.
\<close>

definition live_msg :: "int \<Rightarrow> int \<Rightarrow> Message" where
  "live_msg c n =
     \<lparr>message_id = n, message_author = 1, message_content = ''m'',
      created_at = timedelta_minutes n, attachment_urls = [],
      message_channel = channel7\<lparr>channel_id := c\<rparr>, message_guild = Some guild1\<rparr>"

section \<open>The spec's wording of the replacement Buffer\<close>


section \<open>Evaluation and basic facts\<close>

lemmas model_defs =
  fetch_message_history_def time_data_def scan_def scan_step_def scan_init_def
  fifth_from_end_def last_five_def START_DIFF_def END_DIFF_def timedelta_minutes_def
  timedelta_hours_def sorted_messages_def msg_key_def extend_buffer_def set_buffer_def
  buffer_of_def guild_buffers_def set_status_def minute_msg_def guild1_def channel7_def
  feed_def bot_state0_def str_def str_nat.simps digit_char_def summarize_messages_def
  summary_path_def append_line_def

lemma guild_buffers_update: "guild_buffers g (AList.update g chs mc) = chs"
  by (simp add: guild_buffers_def update_conv')

lemma guild_buffers_update_other:
  "g' \<noteq> g \<Longrightarrow> guild_buffers g' (AList.update g chs mc) = guild_buffers g' mc"
  by (simp add: guild_buffers_def update_conv')


lemma buffer_of_set_buffer_other:
  "g' \<noteq> g \<or> c' \<noteq> c \<Longrightarrow> buffer_of g' c' (set_buffer g c b mc) = buffer_of g' c' mc"
  by (cases "g' = g")
     (auto simp: buffer_of_def set_buffer_def guild_buffers_update guild_buffers_update_other
        update_conv')

subsection \<open>What one windowing invocation leaves behind\<close>


lemma fetch_last_validated:
  "last_validated (yaml_data (snd (fetch_message_history ext now guild channel st))) =
   (let messages = history ext channel (checked_at (time_data now channel st));
        sc = scan (sorted_messages messages) in
    if 5 \<le> length messages then
      (case validate_stamp sc of
         None \<Rightarrow> last_validated (yaml_data st)
       | Some v \<Rightarrow> (last_validated (yaml_data st))
                     (str (channel_id channel) \<mapsto> \<lparr>checked_at = v, active = in_conversation sc\<rparr>))
    else last_validated (yaml_data st))"
  by (simp add: fetch_message_history_def Let_def set_status_def split: prod.splits option.splits)

lemma fetch_tracked_channels:
  "tracked_channels (yaml_data (snd (fetch_message_history ext now guild channel st))) =
     tracked_channels (yaml_data st)"
  by (simp add: fetch_message_history_def Let_def set_status_def split: prod.splits option.splits)

lemmas sweep_defs = check_conversations_def sweep_channel_def collection_keys_def
  in_idle_def in_active_def set_active_def set_checked_at_def

lemma feed_after: "m \<in> set (history (feed ms) ch t) \<Longrightarrow> t < timestamp m"
  by (simp add: feed_def)

lemma has_buffer_deleted:
  "\<not> has_buffer g c (AList.update g (AList.delete c (guild_buffers g mc)) mc)"
  by (simp add: has_buffer_def guild_buffers_update delete_conv')

subsection \<open>The candidate timestamp is a timestamp of the batch\<close>

lemma last_five_subset: "set (last_five xs) \<subseteq> set xs"
  by (simp add: last_five_def set_drop_subset)

lemma hd_last_five: "5 \<le> length xs \<Longrightarrow> hd (last_five xs) \<in> set xs"
proof -
  assume "5 \<le> length xs"
  then have "last_five xs \<noteq> []" by (simp add: last_five_def)
  then have "hd (last_five xs) \<in> set (last_five xs)" by simp
  then show ?thesis using last_five_subset [of xs] by (rule rev_subsetD)
qed

lemma scan_step_chunk:
  "set (current_chunk (scan_step s msg)) \<subseteq> insert msg (set (current_chunk s))"
proof -
  have "set (last_five (current_chunk s @ [msg])) \<subseteq> insert msg (set (current_chunk s))"
    using last_five_subset [of "current_chunk s @ [msg]"] by simp
  then show ?thesis
    by (simp add: scan_step_def Let_def subset_insertI)
qed

lemma scan_step_validate:
  "validate_stamp (scan_step s msg) = validate_stamp s
   \<or> (\<exists>m \<in> insert msg (set (current_chunk s)). validate_stamp (scan_step s msg) = Some (timestamp m))"
proof (cases "length (current_chunk s @ [msg]) < 5")
  case True
  then show ?thesis by (simp add: scan_step_def Let_def)
next
  case False
  then have "hd (last_five (current_chunk s @ [msg])) \<in> set (current_chunk s @ [msg])"
    by (intro hd_last_five) simp
  then have "\<exists>m \<in> insert msg (set (current_chunk s)).
      timestamp (hd (last_five (current_chunk s @ [msg]))) = timestamp m"
    by auto
  then show ?thesis
    by (simp add: scan_step_def Let_def)
qed

lemma scan_step_stamp:
  assumes "stamp_from M s" and "set (current_chunk s) \<subseteq> M"
  shows "stamp_from (insert msg M) (scan_step s msg)
         \<and> set (current_chunk (scan_step s msg)) \<subseteq> insert msg M"
proof
  show "set (current_chunk (scan_step s msg)) \<subseteq> insert msg M"
    using scan_step_chunk [of s msg] assms(2) by blast
  from scan_step_validate [of s msg]
  show "stamp_from (insert msg M) (scan_step s msg)"
  proof
    assume "validate_stamp (scan_step s msg) = validate_stamp s"
    then show ?thesis
      using assms(1) by (auto simp: stamp_from_def split: option.splits)
  next
    assume "\<exists>m \<in> insert msg (set (current_chunk s)).
              validate_stamp (scan_step s msg) = Some (timestamp m)"
    then obtain m where "m \<in> insert msg (set (current_chunk s))"
      and v: "validate_stamp (scan_step s msg) = Some (timestamp m)" by blast
    then have "m \<in> insert msg M" using assms(2) by blast
    then have "timestamp m \<in> timestamp ` insert msg M" by (rule imageI)
    then show ?thesis by (simp only: stamp_from_def v option.case)
  qed
qed

lemma foldl_scan_stamp:
  "stamp_from M s \<Longrightarrow> set (current_chunk s) \<subseteq> M \<Longrightarrow>
   stamp_from (M \<union> set ms) (foldl scan_step s ms)
   \<and> set (current_chunk (foldl scan_step s ms)) \<subseteq> M \<union> set ms"
proof (induction ms arbitrary: s M)
  case Nil
  then show ?case by simp
next
  case (Cons m ms)
  from scan_step_stamp [OF Cons.prems]
  have "stamp_from (insert m M) (scan_step s m)"
    and "set (current_chunk (scan_step s m)) \<subseteq> insert m M" by simp_all
  from Cons.IH [OF this] show ?case by simp
qed

lemma scan_stamp_in_batch:
  "validate_stamp (scan ms) = Some v \<Longrightarrow> \<exists>m\<in>set ms. timestamp m = v"
  using foldl_scan_stamp [of "{}" scan_init ms]
  by (auto simp: scan_def stamp_from_def scan_init_def)

lemma set_sorted_messages: "set (sorted_messages ms) = set ms"
  by (simp add: sorted_messages_def)

subsection \<open>The engine and the tracker do not move \<open>checked_at\<close> back\<close>

text \<open>
  The Feed contract: \<^verbatim>\<open>history(after=t)\<close> yields only messages sent after \<open>t\<close>.
\<close>

lemma fetch_checked_at_mono:
  assumes feed: "\<And>t m. m \<in> set (history ext channel t) \<Longrightarrow> t < timestamp m"
      and old: "last_validated (yaml_data st) k = Some old"
  shows "\<exists>new. last_validated (yaml_data (snd (fetch_message_history ext now guild channel st))) k
                 = Some new \<and> checked_at old \<le> checked_at new"
proof -
  let ?t = "checked_at (time_data now channel st)"
  let ?ms = "history ext channel ?t"
  let ?sc = "scan (sorted_messages ?ms)"
  show ?thesis
  proof (cases "5 \<le> length ?ms \<and> validate_stamp ?sc \<noteq> None \<and> k = str (channel_id channel)")
    case True
    then obtain v where v: "validate_stamp ?sc = Some v" by auto
    from scan_stamp_in_batch [OF v] obtain m where "m \<in> set ?ms" "timestamp m = v"
      by (auto simp: set_sorted_messages)
    with feed have "?t < v" by blast
    moreover have "?t = checked_at old"
      using old True by (simp add: time_data_def)
    ultimately show ?thesis
      using True v by (simp add: fetch_last_validated Let_def)
  next
    case False
    then show ?thesis
      using old by (auto simp: fetch_last_validated Let_def split: option.splits)
  qed
qed

lemma track_checked_at_mono:
  assumes feed: "\<And>t m. m \<in> set (history ext channel t) \<Longrightarrow> t < timestamp m"
      and old: "last_validated (yaml_data st) k = Some old"
  shows "\<exists>new. last_validated (yaml_data (snd (track_channel ext now now' channel track st))) k
                 = Some new \<and> checked_at old \<le> checked_at new"
proof (cases "tracked_channels (yaml_data st)")
  case None
  then show ?thesis using old by (simp add: track_channel_def)
next
  case (Some tracked)
  show ?thesis
  proof (cases "track = (IntKey (channel_id channel) \<in> tracked)")
    case True
    then show ?thesis using old Some by (simp add: track_channel_def)
  next
    case differs: False
    show ?thesis
    proof (cases track)
      case False
      then show ?thesis
        using old Some differs
        by (simp add: track_channel_def Let_def set_tracked_def split: prod.splits sum.splits)
    next
      case True
      let ?key = "str (channel_id channel)"
      let ?st1 = "set_tracked (insert (StrKey ?key) tracked) st"
      let ?fb = "now - timedelta_hours 3"
      let ?st2 = "(case last_validated (yaml_data ?st1) ?key of
                     None \<Rightarrow> set_status ?key \<lparr>checked_at = ?fb, active = False\<rparr> ?st1
                   | Some s \<Rightarrow> if checked_at s < ?fb
                       then set_status ?key \<lparr>checked_at = ?fb, active = False\<rparr> ?st1 else ?st1)"
      have "\<exists>mid. last_validated (yaml_data ?st2) k = Some mid \<and> checked_at old \<le> checked_at mid"
        using old
        by (auto simp: set_tracked_def set_status_def split: option.splits)
      then obtain mid where mid: "last_validated (yaml_data ?st2) k = Some mid"
        and le: "checked_at old \<le> checked_at mid" by blast
      from fetch_checked_at_mono [OF feed mid, where now = now' and guild = "channel_guild channel"]
      obtain new where
        "last_validated (yaml_data (snd (fetch_message_history ext now' (channel_guild channel) channel ?st2))) k = Some new"
        and "checked_at mid \<le> checked_at new" by blast
      moreover have "snd (track_channel ext now now' channel track st)
          = snd (fetch_message_history ext now' (channel_guild channel) channel ?st2)"
        using Some differs True
        by (simp add: track_channel_def Let_def split: prod.splits sum.splits)
      ultimately show ?thesis using le by auto
    qed
  qed
qed

subsection \<open>The sweep, channel by channel\<close>

lemma sweep_channel_summaries:
  "sweep_channel ext lv0 ta ti gc st = (r, st') \<Longrightarrow> summaries st' = summaries st"
  unfolding sweep_channel_def Let_def set_active_def set_checked_at_def set_status_def
  by (auto split: if_splits option.splits prod.splits sum.splits)

lemma sweep_channel_sets_checked_at:
  "sweep_channel ext lv0 ta ti gc st = (Inr (), st') \<Longrightarrow>
   \<exists>s. last_validated (yaml_data st') (str (snd gc)) = Some s \<and> checked_at s = ta"
  unfolding sweep_channel_def Let_def set_active_def set_checked_at_def set_status_def
  by (auto split: if_splits option.splits prod.splits sum.splits)

lemma sweep_channel_keeps_checked_at:
  "sweep_channel ext lv0 ta ti gc st = (r, st') \<Longrightarrow>
   last_validated (yaml_data st) k = Some s \<Longrightarrow> checked_at s = ta \<Longrightarrow>
   \<exists>s'. last_validated (yaml_data st') k = Some s' \<and> checked_at s' = ta"
  unfolding sweep_channel_def Let_def set_active_def set_checked_at_def set_status_def
  by (auto split: if_splits option.splits prod.splits sum.splits)

lemma sweep_loop_keeps_checked_at:
  "for_each (sweep_channel ext lv0 ta ti) ks st = (r, st') \<Longrightarrow>
   last_validated (yaml_data st) k = Some s \<Longrightarrow> checked_at s = ta \<Longrightarrow>
   \<exists>s'. last_validated (yaml_data st') k = Some s' \<and> checked_at s' = ta"
proof (induction ks arbitrary: st s)
  case Nil
  then show ?case by simp
next
  case (Cons gc ks)
  obtain r1 st1 where step: "sweep_channel ext lv0 ta ti gc st = (r1, st1)"
    by (cases "sweep_channel ext lv0 ta ti gc st")
  from sweep_channel_keeps_checked_at [OF step Cons.prems(2) Cons.prems(3)]
  obtain s1 where s1: "last_validated (yaml_data st1) k = Some s1" "checked_at s1 = ta"
    by blast
  show ?case
  proof (cases r1)
    case (Inl e)
    with Cons.prems(1) step have "st' = st1" by simp
    with s1 show ?thesis by simp
  next
    case (Inr u)
    with Cons.prems(1) step
    have "for_each (sweep_channel ext lv0 ta ti) ks st1 = (r, st')" by simp
    from Cons.IH [OF this s1] show ?thesis .
  qed
qed

lemma sweep_loop_sets_checked_at:
  "for_each (sweep_channel ext lv0 ta ti) ks st = (Inr (), st') \<Longrightarrow> gc \<in> set ks \<Longrightarrow>
   \<exists>s. last_validated (yaml_data st') (str (snd gc)) = Some s \<and> checked_at s = ta"
proof (induction ks arbitrary: st)
  case Nil
  then show ?case by simp
next
  case (Cons k ks)
  obtain r1 st1 where step: "sweep_channel ext lv0 ta ti k st = (r1, st1)"
    by (cases "sweep_channel ext lv0 ta ti k st")
  from Cons.prems(1) step have r1: "r1 = Inr ()"
    by (cases r1) auto
  from Cons.prems(1) step r1
  have rest: "for_each (sweep_channel ext lv0 ta ti) ks st1 = (Inr (), st')" by simp
  show ?case
  proof (cases "gc = k")
    case True
    from sweep_channel_sets_checked_at [OF step [unfolded r1]] True
    obtain s where "last_validated (yaml_data st1) (str (snd gc)) = Some s" "checked_at s = ta"
      by blast
    from sweep_loop_keeps_checked_at [OF rest this] show ?thesis .
  next
    case False
    with Cons.prems(2) have "gc \<in> set ks" by simp
    from Cons.IH [OF rest this] show ?thesis .
  qed
qed

lemma sweep_loop_summaries:
  "for_each (sweep_channel ext lv0 ta ti) ks st = (r, st') \<Longrightarrow> summaries st' = summaries st"
proof (induction ks arbitrary: st)
  case Nil
  then show ?case by simp
next
  case (Cons gc ks)
  obtain r1 st1 where step: "sweep_channel ext lv0 ta ti gc st = (r1, st1)"
    by (cases "sweep_channel ext lv0 ta ti gc st")
  note d = sweep_channel_summaries [OF step]
  show ?case
  proof (cases r1)
    case (Inl e)
    with Cons.prems step have "st' = st1" by simp
    with d show ?thesis by simp
  next
    case (Inr u)
    with Cons.prems step
    have "for_each (sweep_channel ext lv0 ta ti) ks st1 = (r, st')" by simp
    from Cons.IH [OF this] d show ?thesis by simp
  qed
qed

section \<open>The Windowing Engine on the spec's scenarios\<close>

text \<open>
  C1. The claim: a batch of five messages one minute apart makes the engine set
  \<open>active\<close> and set \<open>checked_at\<close> to the first message's timestamp, with no chunk emitted
  and all five messages kept in the Buffer.

  The code detects a start when the fifth-from-end message is \<^emph>\<open>more\<close> than \<open>START_DIFF\<close>
  older than the newest one (\<^verbatim>\<open>current_chunk[-5].timestamp < msg.timestamp - START_DIFF\<close>),
  the reverse of the sweep's test for the same transition. On the batch of Scenario B,
  starting from no checkpoint and no Buffer, the invocation returns with the five
  messages in the Buffer and nothing else changed: no checkpoint is written, so
  \<open>active\<close> is not set and \<open>checked_at\<close> is not the first message's timestamp.
\<close>

theorem scenario_B_records_no_checkpoint:
  "fetch_message_history (feed (map minute_msg [0, 1, 2, 3, 4])) (timedelta_minutes 10)
     guild1 channel7 (bot_state0 Map.empty None [])
   = (Inr (), bot_state0 Map.empty None [(IntKey 1, [(7, map minute_msg [0, 1, 2, 3, 4])])])"
  by (simp add: model_defs)

text \<open>
  C2. The claim: in the active state, a newly arriving message \<open>m\<close> more than \<open>END_DIFF\<close>
  after the fifth-from-end message of the current chunk finalizes one chunk that ends just
  before \<open>m\<close>, clears \<open>active\<close> and records \<open>m\<close>'s timestamp; in Scenario C the chunk is
  the first ten messages and the Buffer is the eleventh alone.

  The code finalizes when the fifth-from-end message is \<^emph>\<open>less\<close> than \<open>END_DIFF\<close> older than
  \<open>m\<close> (\<^verbatim>\<open>current_chunk[-5].timestamp > msg.timestamp - END_DIFF\<close>), and it starts every
  invocation with \<^verbatim>\<open>in_conversation = False\<close> whatever the checkpoint says. First
  conjunct: five messages five minutes apart put the scan in a conversation, and a
  sixth message 70 minutes later emits nothing and leaves \<open>active\<close> set. Second
  conjunct: Scenario C on a channel whose checkpoint is active; the eleventh message is
  taken for the start of a conversation, no chunk is emitted, \<open>checked_at\<close> becomes the
  seventh message's timestamp and the Buffer is the last five messages.
\<close>

theorem end_gap_emits_no_chunk:
  "fetch_message_history (feed (map minute_msg [0, 5, 10, 15, 20, 90])) (timedelta_minutes 100)
     guild1 channel7 (bot_state0 Map.empty None [])
   = (Inr (), bot_state0 [''7'' \<mapsto> \<lparr>checked_at = timedelta_minutes 0, active = True\<rparr>] None
                [(IntKey 1, [(7, map minute_msg [0, 5, 10, 15, 20, 90])])])
   \<and>
   fetch_message_history (feed (map minute_msg [0, 1, 2, 3, 4, 5, 6, 7, 8, 9, 74]))
     (timedelta_minutes 75) guild1 channel7
     (bot_state0 [''7'' \<mapsto> \<lparr>checked_at = timedelta_minutes (- 1), active = True\<rparr>] None [])
   = (Inr (), bot_state0 [''7'' \<mapsto> \<lparr>checked_at = timedelta_minutes 6, active = True\<rparr>] None
                [(IntKey 1, [(7, map minute_msg [6, 7, 8, 9, 74])])])"
  by (simp add: model_defs)







section \<open>The writers of \<open>checked_at\<close>\<close>

text \<open>
  C5, as the spec states it: no operation that writes \<open>checked_at\<close> moves it to an
  earlier time. It fails for the sweep: the engine, run at minute 23 on messages of
  minutes 0, 5, 10, 15, 20 and 22, leaves \<open>checked_at\<close> at minute 22; the sweep of the
  same minute sets it to \<open>now - START_DIFF\<close>, minute 8.
\<close>

theorem sweep_moves_checked_at_back:
  "last_validated (yaml_data (snd
      (fetch_message_history (feed (map minute_msg [0, 5, 10, 15, 20, 22])) (timedelta_minutes 23)
         guild1 channel7 (bot_state0 Map.empty None [])))) ''7''
     = Some \<lparr>checked_at = timedelta_minutes 22, active = False\<rparr>
   \<and> last_validated (yaml_data (snd
      (check_conversations (feed []) (timedelta_minutes 23) (timedelta_minutes 23) (snd
         (fetch_message_history (feed (map minute_msg [0, 5, 10, 15, 20, 22])) (timedelta_minutes 23)
            guild1 channel7 (bot_state0 Map.empty None [])))))) ''7''
     = Some \<lparr>checked_at = timedelta_minutes 8, active = False\<rparr>
   \<and> timedelta_minutes 8 < timedelta_minutes 22"
  by (simp add: model_defs sweep_defs)

text \<open>
  C5, amended: with a Feed that yields only messages after the requested time, the
  engine and the tracker never move a channel's \<open>checked_at\<close> to an earlier time; a
  sweep that runs to its end sets the \<open>checked_at\<close> of every channel of the message
  collection to \<open>now - START_DIFF\<close>, whatever it was before.
\<close>

theorem checked_at_writers:
  assumes feed: "\<forall>ch t. \<forall>m \<in> set (history ext ch t). t < timestamp m"
      and old: "last_validated (yaml_data st) k = Some old"
  shows "(\<exists>new. last_validated (yaml_data (snd (fetch_message_history ext now guild channel st))) k
                  = Some new \<and> checked_at old \<le> checked_at new)
       \<and> (\<exists>new. last_validated (yaml_data (snd (track_channel ext now now' channel track st))) k
                  = Some new \<and> checked_at old \<le> checked_at new)
       \<and> (\<forall>st' gc. check_conversations ext now_active now_idle st = (Inr (), st') \<longrightarrow>
             gc \<in> set (collection_keys (message_collection st)) \<longrightarrow>
             (\<exists>new. last_validated (yaml_data st') (str (snd gc)) = Some new
                    \<and> checked_at new = now_active - START_DIFF))"
proof (intro conjI allI impI)
  have feed: "\<And>t m. m \<in> set (history ext channel t) \<Longrightarrow> t < timestamp m"
    using feed by blast
  show "\<exists>new. last_validated (yaml_data (snd (fetch_message_history ext now guild channel st))) k
                = Some new \<and> checked_at old \<le> checked_at new"
    using feed old by (rule fetch_checked_at_mono)
  show "\<exists>new. last_validated (yaml_data (snd (track_channel ext now now' channel track st))) k
                = Some new \<and> checked_at old \<le> checked_at new"
    using feed old by (rule track_checked_at_mono)
next
  fix st' gc
  assume "check_conversations ext now_active now_idle st = (Inr (), st')"
    and "gc \<in> set (collection_keys (message_collection st))"
  then show "\<exists>new. last_validated (yaml_data st') (str (snd gc)) = Some new
                   \<and> checked_at new = now_active - START_DIFF"
    unfolding check_conversations_def Let_def by (rule sweep_loop_sets_checked_at)
qed

theorem checked_at_writers_witness:
  "(\<exists>new. last_validated (yaml_data (snd (fetch_message_history
        (feed (map minute_msg [0, 5, 10, 15, 20, 22])) (timedelta_minutes 23) guild1 channel7
        (bot_state0 [''7'' \<mapsto> \<lparr>checked_at = timedelta_minutes (- 1), active = False\<rparr>] (Some {})
           [(IntKey 1, [(7, [])])])))) ''7'' = Some new
      \<and> timedelta_minutes (- 1) \<le> checked_at new)
   \<and> (\<exists>new. last_validated (yaml_data (snd (track_channel
        (feed (map minute_msg [0, 5, 10, 15, 20, 22])) (timedelta_minutes 23) (timedelta_minutes 23)
        channel7 True
        (bot_state0 [''7'' \<mapsto> \<lparr>checked_at = timedelta_minutes (- 1), active = False\<rparr>] (Some {})
           [(IntKey 1, [(7, [])])])))) ''7'' = Some new
      \<and> timedelta_minutes (- 1) \<le> checked_at new)
   \<and> (\<exists>new. last_validated (yaml_data (snd (check_conversations
        (feed (map minute_msg [0, 5, 10, 15, 20, 22])) (timedelta_minutes 23) (timedelta_minutes 23)
        (bot_state0 [''7'' \<mapsto> \<lparr>checked_at = timedelta_minutes (- 1), active = False\<rparr>] (Some {})
           [(IntKey 1, [(7, [])])])))) ''7'' = Some new
      \<and> checked_at new = timedelta_minutes 23 - START_DIFF)"
proof -
  let ?ext = "feed (map minute_msg [0, 5, 10, 15, 20, 22])"
  let ?st = "bot_state0 [''7'' \<mapsto> \<lparr>checked_at = timedelta_minutes (- 1), active = False\<rparr>] (Some {})
           [(IntKey 1, [(7, [])])]"
  have feed: "\<forall>ch t. \<forall>m \<in> set (history ?ext ch t). t < timestamp m"
    using feed_after by blast
  have old: "last_validated (yaml_data ?st) ''7''
               = Some \<lparr>checked_at = timedelta_minutes (- 1), active = False\<rparr>"
    by (simp add: bot_state0_def)
  have swept: "check_conversations ?ext (timedelta_minutes 23) (timedelta_minutes 23) ?st
      = (Inr (), snd (check_conversations ?ext (timedelta_minutes 23) (timedelta_minutes 23) ?st))"
    by (simp add: model_defs sweep_defs)
  have key: "(IntKey 1, 7) \<in> set (collection_keys (message_collection ?st))"
    by (simp add: collection_keys_def bot_state0_def)
  have str7: "str (snd (IntKey 1, 7)) = ''7''"
    by (simp add: str_def str_nat.simps digit_char_def)
  note w = checked_at_writers [where ext = ?ext and now = "timedelta_minutes 23"
      and guild = guild1 and channel = channel7 and now' = "timedelta_minutes 23" and track = True
      and now_active = "timedelta_minutes 23" and now_idle = "timedelta_minutes 23",
      OF feed old]
  from w have a: "\<exists>new. last_validated (yaml_data (snd (fetch_message_history ?ext
        (timedelta_minutes 23) guild1 channel7 ?st))) ''7'' = Some new
      \<and> timedelta_minutes (- 1) \<le> checked_at new" by simp
  from w have b: "\<exists>new. last_validated (yaml_data (snd (track_channel ?ext
        (timedelta_minutes 23) (timedelta_minutes 23) channel7 True ?st))) ''7'' = Some new
      \<and> timedelta_minutes (- 1) \<le> checked_at new" by simp
  from w swept key have "\<exists>new. last_validated (yaml_data (snd (check_conversations ?ext
        (timedelta_minutes 23) (timedelta_minutes 23) ?st))) (str (snd (IntKey 1, 7))) = Some new
      \<and> checked_at new = timedelta_minutes 23 - START_DIFF" by blast
  then have c: "\<exists>new. last_validated (yaml_data (snd (check_conversations ?ext
        (timedelta_minutes 23) (timedelta_minutes 23) ?st))) ''7'' = Some new
      \<and> checked_at new = timedelta_minutes 23 - START_DIFF" by (simp only: str7)
  from a b c show ?thesis by blast
qed

section \<open>The Reconciler on the spec's scenarios\<close>

text \<open>
  C6. The claim: on an active channel whose Buffer has at least five messages, the
  fifth-from-end older than \<open>now - END_DIFF\<close>, the sweep finalizes the whole Buffer as one
  chunk, forwards it to the Summarizer, clears the Buffer and clears \<open>active\<close>.

  Scenario D: five buffered messages of minutes 0 to 4 on an active channel, sweep at
  minute 74. The sweep clears the Buffer and \<open>active\<close> and moves \<open>checked_at\<close>, but the
  summary files are as before (empty): the call of \<^verbatim>\<open>summarize_messages\<close> is not awaited,
  so the Summarizer never runs on the chunk. Second conjunct: running that coroutine
  would have appended a summary line.
\<close>

theorem sweep_never_runs_summarizer:
  "check_conversations (feed []) (timedelta_minutes 74) (timedelta_minutes 74)
     (bot_state0 [''7'' \<mapsto> \<lparr>checked_at = timedelta_minutes (- 1), active = True\<rparr>] None
        [(IntKey 1, [(7, map minute_msg [0, 1, 2, 3, 4])])])
   = (Inr (), bot_state0 [''7'' \<mapsto> \<lparr>checked_at = timedelta_minutes 59, active = False\<rparr>] None
                [(IntKey 1, [(7, [])])])
   \<and> summarize_messages (feed []) ''c'' ''g'' (map minute_msg [0, 1, 2, 3, 4]) Map.empty
   = (Inr (), [''summaries/g_c.jsonl'' \<mapsto> [''summary'']])"
  by (simp add: model_defs check_conversations_def sweep_channel_def collection_keys_def
      in_idle_def in_active_def set_active_def set_checked_at_def)

text \<open>
  C7. The claim: a failure while one channel is processed does not keep the sweep from
  the remaining channels.

  The sweep has no handler, and \<^verbatim>\<open>last_validated[str(cid)].checked_at = ...\<close>, the last
  statement of the loop body, raises KeyError for a channel that has a Buffer and no
  checkpoint; the engine reads the same map with \<^verbatim>\<open>.get\<close> and a default, and the
  tracker tests membership before it reads. Without a Tracked-set every channel is
  admitted: with an active checkpoint for channel 7, one live message on channel 8 and
  then five on channel 7 leave the state of the first conjunct. Second conjunct: the
  sweep at minute 74 ends with KeyError at channel 8, and channel 7, which meets the
  condition of Scenario D, is not reached: it is still active with its five messages.
\<close>

theorem sweep_aborted_by_missing_checkpoint:
  "foldl (\<lambda>st m. on_message (feed []) m st)
     (bot_state0 [''7'' \<mapsto> \<lparr>checked_at = timedelta_minutes (- 1), active = True\<rparr>] None [])
     (live_msg 8 0 # map (live_msg 7) [0, 1, 2, 3, 4])
   = bot_state0 [''7'' \<mapsto> \<lparr>checked_at = timedelta_minutes (- 1), active = True\<rparr>] None
       [(IntKey 1, [(8, [minute_msg 0]), (7, map minute_msg [0, 1, 2, 3, 4])])]
   \<and>
   check_conversations (feed []) (timedelta_minutes 74) (timedelta_minutes 74)
     (bot_state0 [''7'' \<mapsto> \<lparr>checked_at = timedelta_minutes (- 1), active = True\<rparr>] None
        [(IntKey 1, [(8, [minute_msg 0]), (7, map minute_msg [0, 1, 2, 3, 4])])])
   = (Inl KeyError,
      bot_state0 [''7'' \<mapsto> \<lparr>checked_at = timedelta_minutes (- 1), active = True\<rparr>] None
        [(IntKey 1, [(8, [minute_msg 0]), (7, map minute_msg [0, 1, 2, 3, 4])])])"
  by (simp add: model_defs sweep_defs on_message_def not_tracked_def message_data_def
      live_msg_def)

section \<open>The Channel Tracker\<close>

text \<open>
  C8, as the spec states it: disabling tracking removes the channel's id from the
  Tracked-set and discards its Buffer and its Checkpoint. It fails for the Checkpoint:
  after the tracked channel 7 is disabled, the Tracked-set is empty and the Buffer is
  gone, and \<open>last_validated\<close> still has the channel's entry.
\<close>

theorem untrack_leaves_checkpoint:
  "track_channel (feed []) 0 0 channel7 False
     (bot_state0 [''7'' \<mapsto> \<lparr>checked_at = timedelta_minutes 3, active = True\<rparr>] (Some {IntKey 7})
        [(IntKey 1, [(7, [minute_msg 4])])])
   = (Inr True,
      bot_state0 [''7'' \<mapsto> \<lparr>checked_at = timedelta_minutes 3, active = True\<rparr>] (Some {})
        [(IntKey 1, [])])"
  by (simp add: track_channel_def set_tracked_def del_buffer_def has_buffer_def guild_buffers_def
      bot_state0_def channel7_def guild1_def)

text \<open>
  C8, amended: for a channel whose int id is in the Tracked-set and that has a Buffer,
  disabling tracking removes the int id from the Tracked-set and deletes the Buffer;
  \<open>last_validated\<close> is not touched.
\<close>

theorem untrack_discards_buffer_only:
  assumes "tracked_channels (yaml_data st) = Some tracked"
      and "IntKey (channel_id channel) \<in> tracked"
      and "has_buffer (IntKey (guild_id (channel_guild channel))) (channel_id channel)
             (message_collection st)"
  shows "\<exists>st'. track_channel ext now now' channel False st = (Inr True, st')
           \<and> tracked_channels (yaml_data st') = Some (tracked - {IntKey (channel_id channel)})
           \<and> \<not> has_buffer (IntKey (guild_id (channel_guild channel))) (channel_id channel)
                 (message_collection st')
           \<and> last_validated (yaml_data st') = last_validated (yaml_data st)"
  using assms
  by (simp add: track_channel_def set_tracked_def del_buffer_def has_buffer_deleted)

theorem untrack_discards_buffer_only_witness:
  "\<exists>st'. track_channel (feed []) 0 0 channel7 False
       (bot_state0 [''7'' \<mapsto> \<lparr>checked_at = timedelta_minutes 3, active = True\<rparr>]
          (Some {IntKey 7, StrKey ''7''}) [(IntKey 1, [(7, [minute_msg 4])])]) = (Inr True, st')
     \<and> tracked_channels (yaml_data st') = Some ({IntKey 7, StrKey ''7''} - {IntKey (channel_id channel7)})
     \<and> \<not> has_buffer (IntKey (guild_id (channel_guild channel7))) (channel_id channel7)
           (message_collection st')
     \<and> last_validated (yaml_data st')
       = last_validated (yaml_data
           (bot_state0 [''7'' \<mapsto> \<lparr>checked_at = timedelta_minutes 3, active = True\<rparr>]
              (Some {IntKey 7, StrKey ''7''}) [(IntKey 1, [(7, [minute_msg 4])])]))"
proof -
  let ?st = "bot_state0 [''7'' \<mapsto> \<lparr>checked_at = timedelta_minutes 3, active = True\<rparr>]
          (Some {IntKey 7, StrKey ''7''}) [(IntKey 1, [(7, [minute_msg 4])])]"
  have tr: "tracked_channels (yaml_data ?st) = Some {IntKey 7, StrKey ''7''}"
    by (simp add: bot_state0_def)
  have mem: "IntKey (channel_id channel7) \<in> {IntKey 7, StrKey ''7''}"
    by (simp add: channel7_def)
  have buf: "has_buffer (IntKey (guild_id (channel_guild channel7))) (channel_id channel7)
               (message_collection ?st)"
    by (simp add: has_buffer_def guild_buffers_def bot_state0_def channel7_def guild1_def)
  from untrack_discards_buffer_only [OF tr mem buf, of "feed []" 0 0] show ?thesis .
qed

section \<open>The Summarizer\<close>

text \<open>
  C9, as the spec states it: every internal error of \<^verbatim>\<open>summarize_messages\<close> (backend
  call, parsing of the response, append to the log file) is caught and never reaches the
  caller, and a failing invocation appends nothing. It fails for the last two: a
  response with no choice raises IndexError, a log file that cannot be opened raises
  OSError, and a write that breaks off after three characters raises OSError with those
  three characters in the file.
\<close>

theorem parse_error_propagates:
  "summarize_messages ((feed [])\<lparr>create_completion := \<lambda>cn sn ms. Inr []\<rparr>) ''c'' ''g''
     [minute_msg 0] Map.empty = (Inl IndexError, Map.empty)
   \<and> summarize_messages ((feed [])\<lparr>open_append := \<lambda>p l. OpenFails\<rparr>) ''c'' ''g''
     [minute_msg 0] Map.empty = (Inl OSError, Map.empty)
   \<and> summarize_messages ((feed [])\<lparr>open_append := \<lambda>p l. WriteFails 3\<rparr>) ''c'' ''g''
     [minute_msg 0] Map.empty = (Inl OSError, [''summaries/g_c.jsonl'' \<mapsto> [''sum'']])"
  by (simp add: summarize_messages_def feed_def summary_path_def append_line_def)

text \<open>
  C9, amended: an exception of the backend call is caught, nothing is appended and the
  call returns normally. The call raises exactly when the messages are not empty, the
  backend answered, and the response has no first choice, or its first choice has no
  content, or the append to the log file does not run to its end. A call that raises
  for the response (IndexError, AttributeError) has appended nothing.
\<close>

theorem summarize_catches_backend_only:
  "(\<forall>e. create_completion ext cn sn (sorted_messages messages) = Inl e \<longrightarrow>
        summarize_messages ext cn sn messages fs = (Inr (), fs))
   \<and> (isl (fst (summarize_messages ext cn sn messages fs)) \<longleftrightarrow>
        messages \<noteq> [] \<and>
        (case create_completion ext cn sn (sorted_messages messages) of
           Inl e \<Rightarrow> False
         | Inr choices \<Rightarrow>
             (case choices of
                [] \<Rightarrow> True
              | c # cs \<Rightarrow>
                  (case c of
                     None \<Rightarrow> True
                   | Some summary \<Rightarrow>
                       open_append ext (summary_path sn cn)
                         (json_line ext summary (timestamp (last (sorted_messages messages))))
                       \<noteq> Written))))
   \<and> (fst (summarize_messages ext cn sn messages fs) = Inl IndexError
        \<or> fst (summarize_messages ext cn sn messages fs) = Inl AttributeError \<longrightarrow>
        snd (summarize_messages ext cn sn messages fs) = fs)"
  by (simp add: summarize_messages_def Let_def
      split: sum.splits list.splits option.splits write_outcome.splits)

theorem summarize_catches_backend_only_witness:
  "summarize_messages ((feed [])\<lparr>create_completion := \<lambda>cn sn ms. Inl APIError\<rparr>) ''c'' ''g''
     [minute_msg 0] Map.empty = (Inr (), Map.empty)
   \<and> isl (fst (summarize_messages ((feed [])\<lparr>create_completion := \<lambda>cn sn ms. Inr [None]\<rparr>)
        ''c'' ''g'' [minute_msg 0] Map.empty))
   \<and> snd (summarize_messages ((feed [])\<lparr>create_completion := \<lambda>cn sn ms. Inr [None]\<rparr>)
        ''c'' ''g'' [minute_msg 0] Map.empty) = Map.empty"
proof -
  note a = summarize_catches_backend_only
    [of "(feed [])\<lparr>create_completion := \<lambda>cn sn ms. Inl APIError\<rparr>" "''c''" "''g''"
       "[minute_msg 0]" Map.empty]
  note b = summarize_catches_backend_only
    [of "(feed [])\<lparr>create_completion := \<lambda>cn sn ms. Inr [None]\<rparr>" "''c''" "''g''"
       "[minute_msg 0]" Map.empty]
  have raised: "fst (summarize_messages ((feed [])\<lparr>create_completion := \<lambda>cn sn ms. Inr [None]\<rparr>)
      ''c'' ''g'' [minute_msg 0] Map.empty) = Inl AttributeError"
    by (simp add: summarize_messages_def)
  from a have 1: "summarize_messages ((feed [])\<lparr>create_completion := \<lambda>cn sn ms. Inl APIError\<rparr>)
      ''c'' ''g'' [minute_msg 0] Map.empty = (Inr (), Map.empty)" by simp
  from b have 2: "isl (fst (summarize_messages
      ((feed [])\<lparr>create_completion := \<lambda>cn sn ms. Inr [None]\<rparr>) ''c'' ''g'' [minute_msg 0] Map.empty))"
    by simp
  from b raised have 3: "snd (summarize_messages
      ((feed [])\<lparr>create_completion := \<lambda>cn sn ms. Inr [None]\<rparr>) ''c'' ''g'' [minute_msg 0] Map.empty)
      = Map.empty" by blast
  from 1 2 3 show ?thesis by blast
qed

section \<open>Enabling a channel in whitelist mode\<close>

text \<open>
  C10. In whitelist mode, enabling a channel whose int id is not in the Tracked-set adds
  \<^verbatim>\<open>str(channel.id)\<close> to the set; the admission test looks for the int id, so the
  channel still counts as not tracked and a live message on it is not appended to any
  Buffer: \<^verbatim>\<open>on_message\<close> leaves the state as it is.
\<close>

theorem enabled_channel_still_skipped:
  assumes "tracked_channels (yaml_data st) = Some tracked"
      and "IntKey (channel_id channel) \<notin> tracked"
      and "channel_id (message_channel message) = channel_id channel"
      and "st' = snd (track_channel ext now now' channel True st)"
  shows "tracked_channels (yaml_data st') = Some (insert (StrKey (str (channel_id channel))) tracked)
       \<and> not_tracked (yaml_data st') (channel_id channel)
       \<and> on_message ext message st' = st'"
proof -
  let ?key = "str (channel_id channel)"
  let ?st1 = "set_tracked (insert (StrKey ?key) tracked) st"
  let ?fb = "now - timedelta_hours 3"
  let ?st2 = "(case last_validated (yaml_data ?st1) ?key of
                 None \<Rightarrow> set_status ?key \<lparr>checked_at = ?fb, active = False\<rparr> ?st1
               | Some s \<Rightarrow> if checked_at s < ?fb
                   then set_status ?key \<lparr>checked_at = ?fb, active = False\<rparr> ?st1 else ?st1)"
  have "st' = snd (fetch_message_history ext now' (channel_guild channel) channel ?st2)"
    using assms by (simp add: track_channel_def Let_def split: prod.splits sum.splits)
  then have "tracked_channels (yaml_data st') = tracked_channels (yaml_data ?st2)"
    by (simp only: fetch_tracked_channels)
  also have "\<dots> = Some (insert (StrKey ?key) tracked)"
    by (simp add: set_tracked_def set_status_def split: option.splits)
  finally have tr: "tracked_channels (yaml_data st') = Some (insert (StrKey ?key) tracked)" .
  with assms(2) have nt: "not_tracked (yaml_data st') (channel_id channel)"
    by (simp add: not_tracked_def)
  with assms(3) have "on_message ext message st' = st'"
    by (simp add: on_message_def)
  with tr nt show ?thesis by simp
qed

theorem enabled_channel_still_skipped_witness:
  "tracked_channels (yaml_data (snd (track_channel (feed []) 0 0 channel7 True
       (bot_state0 Map.empty (Some {}) [])))) = Some {StrKey ''7''}
   \<and> not_tracked (yaml_data (snd (track_channel (feed []) 0 0 channel7 True
       (bot_state0 Map.empty (Some {}) [])))) 7
   \<and> on_message (feed [])
       \<lparr>message_id = 1, message_author = 5, message_content = ''hi'', created_at = 0,
        attachment_urls = [], message_channel = channel7, message_guild = Some guild1\<rparr>
       (snd (track_channel (feed []) 0 0 channel7 True (bot_state0 Map.empty (Some {}) [])))
     = snd (track_channel (feed []) 0 0 channel7 True (bot_state0 Map.empty (Some {}) []))"
proof -
  let ?st = "bot_state0 Map.empty (Some {}) []"
  let ?msg = "\<lparr>message_id = 1, message_author = 5, message_content = ''hi'', created_at = 0,
        attachment_urls = [], message_channel = channel7, message_guild = Some guild1\<rparr>"
  have tr: "tracked_channels (yaml_data ?st) = Some {}" by (simp add: bot_state0_def)
  have mem: "IntKey (channel_id channel7) \<notin> {}" by simp
  have ch: "channel_id (message_channel ?msg) = channel_id channel7" by simp
  have s7: "str 7 = ''7''"
    by (simp add: str_def str_nat.simps digit_char_def)
  have c7: "channel_id channel7 = 7" by (simp add: channel7_def)
  from enabled_channel_still_skipped [OF tr mem ch refl, of "feed []" 0 0]
  show ?thesis by (simp add: c7 s7)
qed

end
